theory Spec2Isabelle
  imports Main "HOL-Library.Word"
begin

unbundle bit_operations_syntax

section \<open>Data model of the BLE metric aggregator (projects/git-commitment/main.go)\<close>

text \<open>
  A notification payload is Go's \<^verbatim>\<open>[]byte\<close>. A channel is known by its identity only:
  two entries of a sink list may be the same channel.
\<close>

type_synonym byte = "8 word"
type_synonym chan = nat

text \<open>
  \<^verbatim>\<open>bluetooth.UUID\<close> belongs to the BLE library. The program compares UUIDs for
  equality and uses them as map keys, nothing else, so the five library constants it
  names are constructors and every other identifier is \<open>OtherUUID\<close>.
\<close>

datatype UUID =
    ServiceUUIDCyclingSpeedAndCadence
  | ServiceUUIDCyclingPower
  | ServiceUUIDHeartRate
  | CharacteristicUUIDCyclingPowerMeasurement
  | CharacteristicUUIDHeartRateMeasurement
  | OtherUUID nat

definition KnownServiceUUIDs :: "UUID list" where
  "KnownServiceUUIDs =
     [ServiceUUIDCyclingSpeedAndCadence, ServiceUUIDCyclingPower, ServiceUUIDHeartRate]"

definition KnownServiceNames :: "UUID \<rightharpoonup> string" where
  "KnownServiceNames =
     [ServiceUUIDCyclingPower \<mapsto> ''Cycling Power'',
      ServiceUUIDHeartRate \<mapsto> ''Heart Rate'']"

datatype MetricKind =
    MetricHeartRate
  | MetricCyclingPower
  | MetricCyclingSpeed
  | MetricCyclingCadence

text \<open>Field \<^verbatim>\<open>value\<close> of the source is \<open>mvalue\<close> here; Go's \<^verbatim>\<open>int\<close> holds
  every value the decoders produce (an 8-bit or a 16-bit reading), so it is \<open>int\<close>.\<close>

record DeviceMetric =
  kind :: MetricKind
  mvalue :: int

text \<open>The two pointers of a \<^verbatim>\<open>MetricSource\<close> are read for the UUID of what they point
  to and for \<^verbatim>\<open>EnableNotifications\<close>; the model keeps the UUIDs.\<close>

record MetricSource =
  sinks :: "chan list"
  svc :: UUID
  ch :: UUID

text \<open>The method value that \<^verbatim>\<open>notificationHandler\<close> returns; Go's \<^verbatim>\<open>nil\<close> is \<open>None\<close>.\<close>

datatype Handler = HandleCyclingPowerMeasurement | HandleHeartRateMeasurement

text \<open>
  What the program does to the outside: the calls of \<^verbatim>\<open>EnableNotifications\<close>
  (characteristic and handler), and the channel sends \<^verbatim>\<open>sink <- m\<close> that have
  completed, both oldest first. A send on a channel returns once the metric is handed
  over, so a send that has returned is a delivery.
\<close>

record World =
  notifications :: "(UUID \<times> Handler option) list"
  delivered :: "(chan \<times> DeviceMetric) list"

text \<open>Run-time panics of Go that the decoders can reach.\<close>

datatype panic = IndexOutOfRange | SliceBoundsOutOfRange

section \<open>MetricSource\<close>

definition NewMetricSource :: "UUID \<Rightarrow> UUID \<Rightarrow> MetricSource" where
  "NewMetricSource s c = \<lparr>sinks = [], svc = s, ch = c\<rparr>"

text \<open>The diagnostic \<^verbatim>\<open>println\<close> of the default branch is not modelled.\<close>

definition notificationHandler :: "MetricSource \<Rightarrow> Handler option" where
  "notificationHandler src =
     (if ch src = CharacteristicUUIDCyclingPowerMeasurement then Some HandleCyclingPowerMeasurement
      else if ch src = CharacteristicUUIDHeartRateMeasurement then Some HandleHeartRateMeasurement
      else None)"

definition EnableNotifications :: "UUID \<Rightarrow> Handler option \<Rightarrow> World \<Rightarrow> World" where
  "EnableNotifications c h w = w\<lparr>notifications := notifications w @ [(c, h)]\<rparr>"

definition AddSink :: "chan \<Rightarrow> MetricSource \<times> World \<Rightarrow> MetricSource \<times> World" where
  "AddSink sink sw =
     (let src = (fst sw)\<lparr>sinks := sinks (fst sw) @ [sink]\<rparr>
      in if length (sinks src) = 1
         then (src, EnableNotifications (ch src) (notificationHandler src) (snd sw))
         else (src, snd sw))"

text \<open>A sequence of \<^verbatim>\<open>AddSink\<close> calls on one source, first call first.\<close>

fun addSinks :: "chan list \<Rightarrow> MetricSource \<times> World \<Rightarrow> MetricSource \<times> World" where
  "addSinks [] sw = sw"
| "addSinks (c # cs) sw = addSinks cs (AddSink c sw)"

definition send :: "chan \<Rightarrow> DeviceMetric \<Rightarrow> World \<Rightarrow> World" where
  "send sink m w = w\<lparr>delivered := delivered w @ [(sink, m)]\<rparr>"

text \<open>The \<^verbatim>\<open>for _, sink := range src.sinks\<close> loop of \<^verbatim>\<open>emit\<close>.\<close>

fun sendEach :: "chan list \<Rightarrow> DeviceMetric \<Rightarrow> World \<Rightarrow> World" where
  "sendEach [] m w = w"
| "sendEach (sink # rest) m w = sendEach rest m (send sink m w)"

definition emit :: "MetricSource \<Rightarrow> DeviceMetric \<Rightarrow> World \<Rightarrow> World" where
  "emit src m w = sendEach (sinks src) m w"

section \<open>Decoders\<close>

text \<open>\<^verbatim>\<open>buf[i:]\<close> panics when \<open>i\<close> is beyond the length;
  \<^verbatim>\<open>binary.LittleEndian.Uint16(b)\<close> reads \<^verbatim>\<open>b[1]\<close> first and panics on a slice
  shorter than two bytes. \<open>Uint16From buf i\<close> is the source's
  \<^verbatim>\<open>binary.LittleEndian.Uint16(buf[i:])\<close>.\<close>

definition sliceFrom :: "byte list \<Rightarrow> nat \<Rightarrow> panic + byte list" where
  "sliceFrom buf i = (if length buf < i then Inl SliceBoundsOutOfRange else Inr (drop i buf))"

definition Uint16 :: "byte list \<Rightarrow> panic + 16 word" where
  "Uint16 b =
     (if length b \<le> 1 then Inl IndexOutOfRange
      else Inr (ucast (b ! 0) OR push_bit 8 (ucast (b ! 1))))"

definition Uint16From :: "byte list \<Rightarrow> nat \<Rightarrow> panic + 16 word" where
  "Uint16From buf i = (case sliceFrom buf i of Inl e \<Rightarrow> Inl e | Inr b \<Rightarrow> Uint16 b)"

definition HeartRateFlagSize :: byte where
  "HeartRateFlagSize = push_bit 0 1"

definition HeartRateFlagContactStatus :: byte where
  "HeartRateFlagContactStatus = push_bit 1 1 OR push_bit 2 1"

definition handleHeartRateMeasurement ::
  "MetricSource \<Rightarrow> byte list \<Rightarrow> World \<Rightarrow> panic + World" where
  "handleHeartRateMeasurement src buf w =
     (if length buf < 2 then Inr w
      else
        let flag = buf ! 0;
            is16Bit = (flag AND HeartRateFlagSize \<noteq> 0);
            contactStatus = drop_bit 1 (flag AND HeartRateFlagContactStatus);
            contactSupported = (contactStatus AND 2 \<noteq> 0);
            contactFound = (contactStatus AND 1 \<noteq> 0)
        in if contactSupported \<and> \<not> contactFound then Inr w
           else if is16Bit then
             (case Uint16From buf 1 of
                Inl e \<Rightarrow> Inl e
              | Inr u \<Rightarrow> Inr (emit src \<lparr>kind = MetricHeartRate, mvalue = sint u\<rparr> w))
           else Inr (emit src \<lparr>kind = MetricHeartRate, mvalue = uint (buf ! 1)\<rparr> w))"

definition CyclingPowerFlagHasPedalPowerBalance :: "16 word" where
  "CyclingPowerFlagHasPedalPowerBalance = push_bit 0 1"

definition CyclingPowerFlagHasAccumulatedTorque :: "16 word" where
  "CyclingPowerFlagHasAccumulatedTorque = push_bit 2 1"

definition CyclingPowerFlagHasWheelRevolution :: "16 word" where
  "CyclingPowerFlagHasWheelRevolution = push_bit 4 1"

definition CyclingPowerFlagHasCrankRevolution :: "16 word" where
  "CyclingPowerFlagHasCrankRevolution = push_bit 5 1"

text \<open>
  The source function returns nothing and \<^verbatim>\<open>offset\<close> is a local that is dead at the
  end. The model returns it beside the world so that it can be spoken about:
  \<open>None\<close> when the function returns before \<^verbatim>\<open>offset := 4\<close> is reached.
\<close>

definition handleCyclingPowerMeasurement ::
  "MetricSource \<Rightarrow> byte list \<Rightarrow> World \<Rightarrow> panic + World \<times> nat option" where
  "handleCyclingPowerMeasurement src buf w =
     (if length buf < 2 then Inr (w, None)
      else
        case Uint16From buf 0 of
          Inl e \<Rightarrow> Inl e
        | Inr flags \<Rightarrow>
           (case Uint16From buf 2 of
              Inl e \<Rightarrow> Inl e
            | Inr powerWatts \<Rightarrow>
                if powerWatts = 0 then Inr (w, None)
                else
                  let w' = emit src \<lparr>kind = MetricCyclingPower, mvalue = sint powerWatts\<rparr> w;
                      offset = 4;
                      offset = (if flags AND CyclingPowerFlagHasPedalPowerBalance \<noteq> 0
                                then offset + 1 else offset);
                      offset = (if flags AND CyclingPowerFlagHasAccumulatedTorque \<noteq> 0
                                then offset + 2 else offset);
                      offset = (if flags AND CyclingPowerFlagHasWheelRevolution \<noteq> 0
                                then offset + (4 + 2) else offset);
                      offset = (if flags AND CyclingPowerFlagHasCrankRevolution \<noteq> 0
                                then offset + (2 + 2) else offset)
                  in Inr (w', Some offset)))"

section \<open>Scan mode\<close>

text \<open>A scan result as the callback reads it: the address and the local name as
  strings, the advertised service UUIDs, the signal strength.\<close>

record ScanResult =
  Address :: string
  LocalName :: string
  ServiceUUIDs :: "UUID list"
  RSSI :: int

definition HasServiceUUID :: "ScanResult \<Rightarrow> UUID \<Rightarrow> bool" where
  "HasServiceUUID result s = List.member (ServiceUUIDs result) s"

text \<open>One printed line, as the four arguments of \<^verbatim>\<open>fmt.Printf\<close>.\<close>

record Report =
  reportAddress :: string
  reportName :: string
  reportServices :: string
  reportRSSI :: int

record ScanState =
  addrsChecked :: "string \<rightharpoonup> bool"
  printed :: "Report list"

text \<open>A Go map read of a missing key gives the zero value, the empty string.\<close>

definition serviceName :: "UUID \<Rightarrow> string" where
  "serviceName s = (case KnownServiceNames s of None \<Rightarrow> [] | Some n \<Rightarrow> n)"

fun matchServices :: "ScanResult \<Rightarrow> UUID list \<Rightarrow> string list \<Rightarrow> string list" where
  "matchServices result [] serviceNames = serviceNames"
| "matchServices result (s # rest) serviceNames =
     (if \<not> HasServiceUUID result s then matchServices result rest serviceNames
      else matchServices result rest (serviceNames @ [serviceName s]))"

fun join :: "string list \<Rightarrow> string \<Rightarrow> string" where
  "join [] sep = []"
| "join [x] sep = x"
| "join (x # y # rest) sep = x @ sep @ join (y # rest) sep"

definition onScanResult :: "ScanResult \<Rightarrow> ScanState \<Rightarrow> ScanState" where
  "onScanResult result st =
     (case addrsChecked st (Address result) of
        Some seen \<Rightarrow> st
      | None \<Rightarrow>
          let st1 = st\<lparr>addrsChecked := (addrsChecked st)(Address result \<mapsto> True)\<rparr>;
              serviceNames = matchServices result KnownServiceUUIDs []
          in if length serviceNames = 0 then st1
             else st1\<lparr>printed := printed st1 @
                    [\<lparr>reportAddress = Address result, reportName = LocalName result,
                      reportServices = join serviceNames '','', reportRSSI = RSSI result\<rparr>]\<rparr>)"

text \<open>\<^verbatim>\<open>adapter.Scan\<close> calls the callback once for each scan result, in order,
  starting from the empty set of addresses. The two fatal exits of
  \<^verbatim>\<open>scanDevices\<close> (the adapter cannot be enabled, the scan cannot be started) end
  the program and are not modelled.\<close>

fun scanFrom :: "ScanResult list \<Rightarrow> ScanState \<Rightarrow> ScanState" where
  "scanFrom [] st = st"
| "scanFrom (result # rest) st = scanFrom rest (onScanResult result st)"

definition scanDevices :: "ScanResult list \<Rightarrow> ScanState" where
  "scanDevices results = scanFrom results \<lparr>addrsChecked = Map.empty, printed = []\<rparr>"

section \<open>Auxiliary facts\<close>

subsection \<open>Fan-out and subscription\<close>

lemma delivered_sendEach:
  "delivered (sendEach cs m w) = delivered w @ map (\<lambda>sink. (sink, m)) cs"
  by (induction cs arbitrary: w) (simp_all add: send_def)

lemma notifications_sendEach: "notifications (sendEach cs m w) = notifications w"
  by (induction cs arbitrary: w) (simp_all add: send_def)

lemma sinks_AddSink: "sinks (fst (AddSink c sw)) = sinks (fst sw) @ [c]"
  by (simp add: AddSink_def Let_def)

lemma delivered_AddSink: "delivered (snd (AddSink c sw)) = delivered (snd sw)"
  by (simp add: AddSink_def Let_def EnableNotifications_def)

lemma notifications_AddSink_first:
  "sinks (fst sw) = [] \<Longrightarrow>
     notifications (snd (AddSink c sw)) =
       notifications (snd sw) @ [(ch (fst sw), notificationHandler (fst sw))]"
  by (simp add: AddSink_def Let_def EnableNotifications_def notificationHandler_def)

lemma notifications_AddSink_later:
  "sinks (fst sw) \<noteq> [] \<Longrightarrow> notifications (snd (AddSink c sw)) = notifications (snd sw)"
  by (cases "sinks (fst sw)") (simp_all add: AddSink_def Let_def)

lemma sinks_addSinks: "sinks (fst (addSinks cs sw)) = sinks (fst sw) @ cs"
  by (induction cs arbitrary: sw) (simp_all add: sinks_AddSink)

lemma notifications_addSinks_later:
  "sinks (fst sw) \<noteq> [] \<Longrightarrow> notifications (snd (addSinks cs sw)) = notifications (snd sw)"
  by (induction cs arbitrary: sw) (simp_all add: sinks_AddSink notifications_AddSink_later)

subsection \<open>Bytes and bits\<close>

lemma and_2_iff: "((x::byte) AND 2 \<noteq> 0) = bit x 1"
  using and_exp_eq_0_iff_not_bit [of x 1] by simp

lemma and_1_iff: "((x::byte) AND 1 \<noteq> 0) = bit x 0"
  using and_exp_eq_0_iff_not_bit [of x 0] by simp

lemma is16Bit_iff: "((flag::byte) AND HeartRateFlagSize \<noteq> 0) = bit flag 0"
  by (simp add: HeartRateFlagSize_def and_1_iff)

lemma contactSupported_iff:
  "(drop_bit 1 ((flag::byte) AND HeartRateFlagContactStatus) AND 2 \<noteq> 0) = bit flag 2"
  unfolding and_2_iff by (simp add: HeartRateFlagContactStatus_def bit_simps numeral_2_eq_2)

lemma contactFound_iff:
  "(drop_bit 1 ((flag::byte) AND HeartRateFlagContactStatus) AND 1 \<noteq> 0) = bit flag 1"
  unfolding and_1_iff by (simp add: HeartRateFlagContactStatus_def bit_simps)

lemma uint_le16:
  "uint (ucast (lo::byte) OR push_bit 8 (ucast (hi::byte)) :: 16 word) = uint lo + 256 * uint hi"
proof -
  have lo: "0 \<le> uint lo" "uint lo < 256" using uint_lt2p [of lo] by simp_all
  have hi: "0 \<le> uint hi" "uint hi < 256" using uint_lt2p [of hi] by simp_all
  have "(ucast lo OR push_bit 8 (ucast hi) :: 16 word) = word_cat hi lo"
    by (simp add: word_cat_eq_push_bit_or or.commute)
  then have "uint (ucast lo OR push_bit 8 (ucast hi) :: 16 word)
      = take_bit 16 (concat_bit 8 (uint lo) (uint hi))"
    by (simp add: word_cat_eq' uint_word_of_int_eq)
  also have "concat_bit 8 (uint lo) (uint hi) = uint lo + 256 * uint hi"
    using lo by (simp add: concat_bit_eq take_bit_int_eq_self push_bit_eq_mult)
  also have "take_bit 16 (uint lo + 256 * uint hi) = uint lo + 256 * uint hi"
    using lo hi by (intro take_bit_int_eq_self) simp_all
  finally show ?thesis .
qed

lemma signed_take_bit_15:
  assumes "0 \<le> u" "u < 65536"
  shows "signed_take_bit 15 (u::int) = (if u < 32768 then u else u - 65536)"
proof -
  have "signed_take_bit 15 u = take_bit (Suc 15) (u + 2 ^ 15) - 2 ^ 15"
    by (rule signed_take_bit_eq_take_bit_shift)
  also have "\<dots> = (u + 32768) mod 65536 - 32768"
    by (simp add: take_bit_eq_mod)
  finally have eq: "signed_take_bit 15 u = (u + 32768) mod 65536 - 32768" .
  show ?thesis
  proof (cases "u < 32768")
    case True
    with assms have "(u + 32768) mod 65536 = u + 32768"
      by (intro mod_pos_pos_trivial) simp_all
    with True eq show ?thesis by simp
  next
    case False
    have "(u + 32768) mod 65536 = ((u - 32768) + 65536) mod 65536"
      by (simp add: algebra_simps)
    also have "\<dots> = (u - 32768) mod 65536"
      by (rule mod_add_self2)
    also have "\<dots> = u - 32768"
      using assms False by (intro mod_pos_pos_trivial) simp_all
    finally show ?thesis using False eq by simp
  qed
qed

lemma sint_le16:
  "sint (ucast (lo::byte) OR push_bit 8 (ucast (hi::byte)) :: 16 word) =
     (if uint lo + 256 * uint hi < 32768 then uint lo + 256 * uint hi
      else uint lo + 256 * uint hi - 65536)"
proof -
  have lo: "0 \<le> uint lo" "uint lo < 256" using uint_lt2p [of lo] by simp_all
  have hi: "0 \<le> uint hi" "uint hi < 256" using uint_lt2p [of hi] by simp_all
  have "sint (ucast lo OR push_bit 8 (ucast hi) :: 16 word) =
      signed_take_bit 15 (uint lo + 256 * uint hi)"
    unfolding sint_uint uint_le16 by simp
  also have "\<dots> = (if uint lo + 256 * uint hi < 32768 then uint lo + 256 * uint hi
      else uint lo + 256 * uint hi - 65536)"
    using lo hi by (intro signed_take_bit_15) simp_all
  finally show ?thesis .
qed

lemma le16_eq_0_iff:
  "((ucast (lo::byte) OR push_bit 8 (ucast (hi::byte)) :: 16 word) = 0) = (lo = 0 \<and> hi = 0)"
proof -
  have ar: "(a + 256 * b = 0) = (a = 0 \<and> b = 0)" if "0 \<le> a" "0 \<le> b" for a b :: int
    using that by arith
  have "((ucast lo OR push_bit 8 (ucast hi) :: 16 word) = 0) = (uint lo + 256 * uint hi = 0)"
    by (simp only: uint_le16 [symmetric] uint_0_iff)
  also have "\<dots> = (uint lo = 0 \<and> uint hi = 0)"
    by (rule ar) simp_all
  finally show ?thesis by (simp add: uint_0_iff)
qed

lemma Uint16From_ok:
  "i + 2 \<le> length buf \<Longrightarrow>
     Uint16From buf i = Inr (ucast (buf ! i) OR push_bit 8 (ucast (buf ! (i + 1))))"
  by (simp add: Uint16From_def sliceFrom_def Uint16_def)

lemma Uint16From_short:
  "i \<le> length buf \<Longrightarrow> length buf < i + 2 \<Longrightarrow> Uint16From buf i = Inl IndexOutOfRange"
  by (auto simp: Uint16From_def sliceFrom_def Uint16_def)

lemma flag_bit_low:
  "k < 8 \<Longrightarrow>
     ((ucast (lo::byte) OR push_bit 8 (ucast (hi::byte)) :: 16 word) AND push_bit k 1 \<noteq> 0) = bit lo k"
proof -
  assume k: "k < 8"
  have "((ucast lo OR push_bit 8 (ucast hi) :: 16 word) AND 2 ^ k = 0) =
      (\<not> bit (ucast lo OR push_bit 8 (ucast hi) :: 16 word) k)"
    by (rule and_exp_eq_0_iff_not_bit)
  also have "bit (ucast lo OR push_bit 8 (ucast hi) :: 16 word) k = bit lo k"
    using k by (simp add: bit_simps)
  finally show ?thesis by (simp add: push_bit_eq_mult)
qed

subsection \<open>Heart rate\<close>

lemma heart_rate_short: "length buf < 2 \<Longrightarrow> handleHeartRateMeasurement src buf w = Inr w"
  by (simp add: handleHeartRateMeasurement_def)

lemma heart_rate_gates:
  "2 \<le> length buf \<Longrightarrow>
     handleHeartRateMeasurement src buf w =
       (if bit (buf ! 0) 2 \<and> \<not> bit (buf ! 0) 1 then Inr w
        else if bit (buf ! 0) 0 then
          (case Uint16From buf 1 of
             Inl e \<Rightarrow> Inl e
           | Inr u \<Rightarrow> Inr (emit src \<lparr>kind = MetricHeartRate, mvalue = sint u\<rparr> w))
        else Inr (emit src \<lparr>kind = MetricHeartRate, mvalue = uint (buf ! 1)\<rparr> w))"
  unfolding handleHeartRateMeasurement_def Let_def contactSupported_iff contactFound_iff
    is16Bit_iff
  by simp


lemma heart_rate_8bit:
  "2 \<le> length buf \<Longrightarrow> \<not> (bit (buf ! 0) 2 \<and> \<not> bit (buf ! 0) 1) \<Longrightarrow> \<not> bit (buf ! 0) 0 \<Longrightarrow>
     handleHeartRateMeasurement src buf w =
       Inr (emit src \<lparr>kind = MetricHeartRate, mvalue = uint (buf ! 1)\<rparr> w)"
  by (auto simp: heart_rate_gates)

lemma heart_rate_16bit:
  "3 \<le> length buf \<Longrightarrow> \<not> (bit (buf ! 0) 2 \<and> \<not> bit (buf ! 0) 1) \<Longrightarrow> bit (buf ! 0) 0 \<Longrightarrow>
     handleHeartRateMeasurement src buf w =
       Inr (emit src \<lparr>kind = MetricHeartRate,
              mvalue = (if uint (buf ! 1) + 256 * uint (buf ! 2) < 32768
                        then uint (buf ! 1) + 256 * uint (buf ! 2)
                        else uint (buf ! 1) + 256 * uint (buf ! 2) - 65536)\<rparr> w)"
proof -
  assume len: "3 \<le> length buf" and gate: "\<not> (bit (buf ! 0) 2 \<and> \<not> bit (buf ! 0) 1)"
    and wide: "bit (buf ! 0) 0"
  have u: "Uint16From buf 1 = Inr (ucast (buf ! 1) OR push_bit 8 (ucast (buf ! 2)))"
    using Uint16From_ok [of 1 buf] len by (simp add: numeral_2_eq_2)
  from len have "2 \<le> length buf" by simp
  then show ?thesis
    using gate wide by (simp only: heart_rate_gates u sint_le16 if_True if_False sum.case)
qed

lemma heart_rate_16bit_short:
  "length buf = 2 \<Longrightarrow> \<not> (bit (buf ! 0) 2 \<and> \<not> bit (buf ! 0) 1) \<Longrightarrow> bit (buf ! 0) 0 \<Longrightarrow>
     handleHeartRateMeasurement src buf w = Inl IndexOutOfRange"
  by (auto simp: heart_rate_gates Uint16From_short)

subsection \<open>Cycling power\<close>

lemma cycling_power_short:
  "length buf < 2 \<Longrightarrow> handleCyclingPowerMeasurement src buf w = Inr (w, None)"
  by (simp add: handleCyclingPowerMeasurement_def)

lemma cycling_power_truncated:
  "length buf = 2 \<or> length buf = 3 \<Longrightarrow>
     handleCyclingPowerMeasurement src buf w = Inl IndexOutOfRange"
proof -
  assume len: "length buf = 2 \<or> length buf = 3"
  then have f: "Uint16From buf 0 = Inr (ucast (buf ! 0) OR push_bit 8 (ucast (buf ! (0 + 1))))"
    by (intro Uint16From_ok) auto
  from len have p: "Uint16From buf 2 = Inl IndexOutOfRange"
    by (intro Uint16From_short) auto
  from len have "\<not> length buf < 2" by auto
  then show ?thesis
    by (simp add: handleCyclingPowerMeasurement_def f p)
qed

lemma cycling_power_fields:
  "4 \<le> length buf \<Longrightarrow>
     Uint16From buf 0 = Inr (ucast (buf ! 0) OR push_bit 8 (ucast (buf ! 1))) \<and>
     Uint16From buf 2 = Inr (ucast (buf ! 2) OR push_bit 8 (ucast (buf ! 3)))"
  using Uint16From_ok [of 0 buf] Uint16From_ok [of 2 buf] by (simp add: numeral_3_eq_3)

lemma cycling_power_zero:
  "4 \<le> length buf \<Longrightarrow> buf ! 2 = 0 \<Longrightarrow> buf ! 3 = 0 \<Longrightarrow>
     handleCyclingPowerMeasurement src buf w = Inr (w, None)"
  by (simp add: handleCyclingPowerMeasurement_def cycling_power_fields)

lemma flag_tests:
  "((ucast (lo::byte) OR push_bit 8 (ucast (hi::byte)) :: 16 word)
      AND CyclingPowerFlagHasPedalPowerBalance \<noteq> 0) = bit lo 0"
  "((ucast (lo::byte) OR push_bit 8 (ucast (hi::byte)) :: 16 word)
      AND CyclingPowerFlagHasAccumulatedTorque \<noteq> 0) = bit lo 2"
  "((ucast (lo::byte) OR push_bit 8 (ucast (hi::byte)) :: 16 word)
      AND CyclingPowerFlagHasWheelRevolution \<noteq> 0) = bit lo 4"
  "((ucast (lo::byte) OR push_bit 8 (ucast (hi::byte)) :: 16 word)
      AND CyclingPowerFlagHasCrankRevolution \<noteq> 0) = bit lo 5"
  unfolding CyclingPowerFlagHasPedalPowerBalance_def CyclingPowerFlagHasAccumulatedTorque_def
    CyclingPowerFlagHasWheelRevolution_def CyclingPowerFlagHasCrankRevolution_def
  by (rule flag_bit_low, simp)+

lemma cycling_power_nonzero:
  assumes "4 \<le> length buf" and "\<not> (buf ! 2 = 0 \<and> buf ! 3 = 0)"
  shows "handleCyclingPowerMeasurement src buf w =
       Inr (emit src \<lparr>kind = MetricCyclingPower,
              mvalue = (if uint (buf ! 2) + 256 * uint (buf ! 3) < 32768
                        then uint (buf ! 2) + 256 * uint (buf ! 3)
                        else uint (buf ! 2) + 256 * uint (buf ! 3) - 65536)\<rparr> w,
            Some (4 + (if bit (buf ! 0) 0 then 1 else 0) + (if bit (buf ! 0) 2 then 2 else 0)
                    + (if bit (buf ! 0) 4 then 6 else 0) + (if bit (buf ! 0) 5 then 4 else 0)))"
proof -
  from assms(1) have len: "\<not> length buf < 2" by simp
  from assms(2) have nz: "(ucast (buf ! 2) OR push_bit 8 (ucast (buf ! 3)) :: 16 word) \<noteq> 0"
    by (simp only: le16_eq_0_iff not_False_eq_True)
  show ?thesis
    unfolding handleCyclingPowerMeasurement_def Let_def
      cycling_power_fields [OF assms(1), THEN conjunct1]
      cycling_power_fields [OF assms(1), THEN conjunct2]
      sum.case flag_tests sint_le16
    using len nz by simp
qed

subsection \<open>Scan mode\<close>

lemma dom_onScanResult:
  "dom (addrsChecked (onScanResult r st)) = insert (Address r) (dom (addrsChecked st))"
  by (auto simp: onScanResult_def Let_def split: option.splits)

lemma printed_onScanResult:
  "printed (onScanResult r st) = printed st \<or>
   (Address r \<notin> dom (addrsChecked st) \<and> matchServices r KnownServiceUUIDs [] \<noteq> [] \<and>
    (\<exists>line. printed (onScanResult r st) = printed st @ [line] \<and> reportAddress line = Address r))"
  by (auto simp: onScanResult_def Let_def split: option.splits)

lemma printed_onScanResult_unmatched:
  "matchServices r KnownServiceUUIDs [] = [] \<Longrightarrow> printed (onScanResult r st) = printed st"
  by (auto simp: onScanResult_def Let_def split: option.splits)

lemma matchServices_none:
  "\<forall>s \<in> set ss. \<not> HasServiceUUID r s \<Longrightarrow> matchServices r ss acc = acc"
  by (induction ss arbitrary: acc) simp_all

lemma dom_scanFrom:
  "dom (addrsChecked (scanFrom rs st)) = dom (addrsChecked st) \<union> Address ` set rs"
  by (induction rs arbitrary: st) (auto simp: dom_onScanResult)

lemma scanFrom_append: "scanFrom (xs @ ys) st = scanFrom ys (scanFrom xs st)"
  by (induction xs arbitrary: st) simp_all

lemma step_keeps:
  assumes sub: "reportAddress ` set (printed st) \<subseteq> dom (addrsChecked st)"
    and dis: "distinct (map reportAddress (printed st))"
  shows "reportAddress ` set (printed (onScanResult r st)) \<subseteq> dom (addrsChecked (onScanResult r st))
    \<and> distinct (map reportAddress (printed (onScanResult r st)))"
proof -
  from printed_onScanResult [of r st]
  consider (same) "printed (onScanResult r st) = printed st"
    | (new) line where "Address r \<notin> dom (addrsChecked st)"
        "printed (onScanResult r st) = printed st @ [line]" "reportAddress line = Address r"
    by blast
  then show ?thesis
  proof cases
    case same
    with sub dis show ?thesis
      unfolding dom_onScanResult by (simp add: subset_insertI2)
  next
    case new
    from new(1) sub have "Address r \<notin> reportAddress ` set (printed st)" by blast
    with new(2,3) sub dis show ?thesis
      unfolding dom_onScanResult by (simp add: subset_insertI2)
  qed
qed

lemma scan_keeps:
  "reportAddress ` set (printed st) \<subseteq> dom (addrsChecked st) \<Longrightarrow>
   distinct (map reportAddress (printed st)) \<Longrightarrow>
   reportAddress ` set (printed (scanFrom rs st)) \<subseteq> dom (addrsChecked (scanFrom rs st))
    \<and> distinct (map reportAddress (printed (scanFrom rs st)))"
proof (induction rs arbitrary: st)
  case Nil
  then show ?case by simp
next
  case (Cons r rs)
  from step_keeps [OF Cons.prems, of r] show ?case
    by (simp add: Cons.IH)
qed

lemma printed_scanFrom_extends:
  "\<exists>new. printed (scanFrom rs st) = printed st @ new"
proof (induction rs arbitrary: st)
  case Nil
  show ?case by simp
next
  case (Cons r rs)
  from Cons.IH [of "onScanResult r st"] printed_onScanResult [of r st]
  show ?case by auto
qed

lemma seen_address_silent:
  "a \<in> dom (addrsChecked st) \<Longrightarrow>
     (a \<in> reportAddress ` set (printed (scanFrom rs st))) = (a \<in> reportAddress ` set (printed st))"
proof (induction rs arbitrary: st)
  case Nil
  show ?case by simp
next
  case (Cons r rs)
  from Cons.prems have "a \<in> dom (addrsChecked (onScanResult r st))"
    by (simp add: dom_onScanResult)
  then have "(a \<in> reportAddress ` set (printed (scanFrom rs (onScanResult r st)))) =
      (a \<in> reportAddress ` set (printed (onScanResult r st)))"
    by (rule Cons.IH)
  moreover have "(a \<in> reportAddress ` set (printed (onScanResult r st))) =
      (a \<in> reportAddress ` set (printed st))"
    using printed_onScanResult [of r st] Cons.prems by auto
  ultimately show ?case by simp
qed

section \<open>Heart-rate decoder\<close>

text \<open>
  C1. The payload \<open>[0x06, 0x50]\<close> has both contact bits set: the contact status is
  \<open>3\<close>, supported and detected, and the decoder emits HeartRate(80). The status
  "supported, not detected" is \<open>2\<close> (bit 2 set, bit 1 clear), as in the payload
  \<open>[0x04, 0x50]\<close>, for which the decoder emits no metric.
\<close>

theorem heart_rate_contact_0x06:
  "drop_bit 1 ((0x06 :: byte) AND HeartRateFlagContactStatus) = 3
   \<and> handleHeartRateMeasurement src [0x06, 0x50] w =
       Inr (emit src \<lparr>kind = MetricHeartRate, mvalue = 80\<rparr> w)
   \<and> drop_bit 1 ((0x04 :: byte) AND HeartRateFlagContactStatus) = 2
   \<and> handleHeartRateMeasurement src [0x04, 0x50] w = Inr w"
  by (simp add: handleHeartRateMeasurement_def HeartRateFlagSize_def
      HeartRateFlagContactStatus_def)

text \<open>With one sink registered, \<open>[0x06, 0x50]\<close> does deliver a metric.\<close>

theorem heart_rate_contact_0x06_counterexample:
  "handleHeartRateMeasurement
     \<lparr>sinks = [0], svc = ServiceUUIDHeartRate, ch = CharacteristicUUIDHeartRateMeasurement\<rparr>
     [0x06, 0x50] \<lparr>notifications = [], delivered = []\<rparr>
   = Inr \<lparr>notifications = [], delivered = [(0, \<lparr>kind = MetricHeartRate, mvalue = 80\<rparr>)]\<rparr>
   \<and> handleHeartRateMeasurement
     \<lparr>sinks = [0], svc = ServiceUUIDHeartRate, ch = CharacteristicUUIDHeartRateMeasurement\<rparr>
     [0x06, 0x50] \<lparr>notifications = [], delivered = []\<rparr>
   \<noteq> Inr \<lparr>notifications = [], delivered = []\<rparr>"
  by (simp add: handleHeartRateMeasurement_def HeartRateFlagSize_def
      HeartRateFlagContactStatus_def emit_def send_def)

text \<open>
  C2. The flags byte \<open>0x07\<close> has contact status \<open>3\<close>, supported and detected, and has
  bit 0 set, which selects the 16-bit encoding: the value is bytes 1 and 2. For the
  payload \<open>[0x07, 0x50, 0x00]\<close> the decoder emits HeartRate(80).
\<close>

theorem heart_rate_contact_0x07:
  "drop_bit 1 ((0x07 :: byte) AND HeartRateFlagContactStatus) = 3
   \<and> (0x07 :: byte) AND HeartRateFlagSize \<noteq> 0
   \<and> handleHeartRateMeasurement src [0x07, 0x50, 0x00] w =
       Inr (emit src \<lparr>kind = MetricHeartRate, mvalue = 80\<rparr> w)"
  by (simp add: handleHeartRateMeasurement_def HeartRateFlagSize_def
      HeartRateFlagContactStatus_def Uint16From_def sliceFrom_def Uint16_def)

text \<open>The two-byte payload \<open>[0x07, 0x50]\<close> does not yield HeartRate(80).\<close>

theorem heart_rate_contact_0x07_counterexample:
  "handleHeartRateMeasurement
     \<lparr>sinks = [0], svc = ServiceUUIDHeartRate, ch = CharacteristicUUIDHeartRateMeasurement\<rparr>
     [0x07, 0x50] \<lparr>notifications = [], delivered = []\<rparr>
   \<noteq> Inr (emit \<lparr>sinks = [0], svc = ServiceUUIDHeartRate, ch = CharacteristicUUIDHeartRateMeasurement\<rparr>
          \<lparr>kind = MetricHeartRate, mvalue = 80\<rparr> \<lparr>notifications = [], delivered = []\<rparr>)"
  by (simp add: handleHeartRateMeasurement_def HeartRateFlagSize_def
      HeartRateFlagContactStatus_def Uint16From_def sliceFrom_def Uint16_def)

text \<open>
  C5. A heart-rate payload of two bytes whose flags select the 16-bit encoding passes
  the length gate and the contact gate, and the read of bytes 1 and 2 then fails:
  at \<open>[0x01, 0x48]\<close> the decoder panics with an index out of range.
\<close>

theorem heart_rate_16bit_two_bytes_panics:
  "handleHeartRateMeasurement src [0x01, 0x48] w = Inl IndexOutOfRange"
  by (simp add: handleHeartRateMeasurement_def HeartRateFlagSize_def
      HeartRateFlagContactStatus_def Uint16From_def sliceFrom_def Uint16_def)

section \<open>Cycling-power decoder\<close>

text \<open>
  C3. A cycling-power payload of two or three bytes is shorter than the flags and the
  power field, is let through by the length check and makes the read of the power
  field fail: at \<open>[0x00, 0x00]\<close> and at \<open>[0x00, 0x00, 0x64]\<close> the decoder panics with an
  index out of range.
\<close>

theorem cycling_power_short_payload_panics:
  "handleCyclingPowerMeasurement src [0x00, 0x00] w = Inl IndexOutOfRange
   \<and> handleCyclingPowerMeasurement src [0x00, 0x00, 0x64] w = Inl IndexOutOfRange"
  by (simp add: cycling_power_truncated)

text \<open>
  C4. For a cycling-power payload of at least four bytes, let the power be bytes 2 and
  3 read as a little-endian signed 16-bit integer. If it is zero the world is left as
  it is; otherwise the decoder calls \<open>emit\<close> once, with a CyclingPower metric of that
  value. \<open>[0, 0, 0, 0]\<close> yields no metric and \<open>[0, 0, 0x64, 0]\<close> yields
  CyclingPower(100).
\<close>

theorem cycling_power_decode:
  assumes "4 \<le> length buf"
  shows "(\<exists>offset. handleCyclingPowerMeasurement src buf w =
            Inr (let u = uint (buf ! 2) + 256 * uint (buf ! 3);
                     power = (if u < 32768 then u else u - 65536)
                 in if power = 0 then w
                    else emit src \<lparr>kind = MetricCyclingPower, mvalue = power\<rparr> w,
                 offset))
     \<and> handleCyclingPowerMeasurement src [0x00, 0x00, 0x00, 0x00] w = Inr (w, None)
     \<and> (\<exists>offset. handleCyclingPowerMeasurement src [0x00, 0x00, 0x64, 0x00] w =
            Inr (emit src \<lparr>kind = MetricCyclingPower, mvalue = 100\<rparr> w, offset))"
proof -
  have general: "\<exists>offset. handleCyclingPowerMeasurement src b w =
            Inr (let u = uint (b ! 2) + 256 * uint (b ! 3);
                     power = (if u < 32768 then u else u - 65536)
                 in if power = 0 then w
                    else emit src \<lparr>kind = MetricCyclingPower, mvalue = power\<rparr> w,
                 offset)"
    if len: "4 \<le> length b" for b
  proof (cases "b ! 2 = 0 \<and> b ! 3 = 0")
    case True
    with len show ?thesis by (simp add: cycling_power_zero)
  next
    case False
    have lo: "0 \<le> uint (b ! 2)" "uint (b ! 2) < 256" using uint_lt2p [of "b ! 2"] by simp_all
    have hi: "0 \<le> uint (b ! 3)" "uint (b ! 3) < 256" using uint_lt2p [of "b ! 3"] by simp_all
    from False have "uint (b ! 2) \<noteq> 0 \<or> uint (b ! 3) \<noteq> 0"
      by (simp add: uint_0_iff)
    with lo hi have "uint (b ! 2) + 256 * uint (b ! 3) \<noteq> 0"
      and "uint (b ! 2) + 256 * uint (b ! 3) \<noteq> 65536"
      by arith+
    then show ?thesis
      by (simp add: cycling_power_nonzero [OF len False] Let_def)
  qed
  have "\<exists>offset. handleCyclingPowerMeasurement src [0x00, 0x00, 0x64, 0x00] w =
            Inr (emit src \<lparr>kind = MetricCyclingPower, mvalue = 100\<rparr> w, offset)"
    using general [of "[0x00, 0x00, 0x64, 0x00]"] by simp
  moreover have "handleCyclingPowerMeasurement src [0x00, 0x00, 0x00, 0x00] w = Inr (w, None)"
    by (simp add: cycling_power_zero)
  ultimately show ?thesis using general [OF assms] by blast
qed

theorem cycling_power_decode_witness:
  "4 \<le> length [0x00, 0x00, 0x9C, 0xFF :: byte]
   \<and> (\<exists>offset. handleCyclingPowerMeasurement
         \<lparr>sinks = [0], svc = ServiceUUIDCyclingPower, ch = CharacteristicUUIDCyclingPowerMeasurement\<rparr>
         [0x00, 0x00, 0x9C, 0xFF] \<lparr>notifications = [], delivered = []\<rparr> =
       Inr (\<lparr>notifications = [],
             delivered = [(0, \<lparr>kind = MetricCyclingPower, mvalue = - 100\<rparr>)]\<rparr>, offset))"
  using cycling_power_decode [of "[0x00, 0x00, 0x9C, 0xFF]"
      "\<lparr>sinks = [0], svc = ServiceUUIDCyclingPower, ch = CharacteristicUUIDCyclingPowerMeasurement\<rparr>"
      "\<lparr>notifications = [], delivered = []\<rparr>"]
  by (simp add: emit_def send_def)

text \<open>
  C6. For a cycling-power payload of at least four bytes whose power field is not
  zero, the trailing offset is 4, plus 1 if the pedal-power-balance bit (bit 0) is
  set, plus 2 if the accumulated-torque bit (bit 2) is set, plus 6 if the
  wheel-revolution bit (bit 4) is set, plus 4 if the crank-revolution bit (bit 5) is
  set; the four bits lie in byte 0, the low byte of the little-endian flags. With bits
  0 and 4 set and bits 2 and 5 clear it is 11, whatever the other bytes hold.
\<close>

theorem cycling_power_offset:
  assumes "4 \<le> length buf" and "\<not> (buf ! 2 = 0 \<and> buf ! 3 = 0)"
  shows "(\<exists>w'. handleCyclingPowerMeasurement src buf w =
            Inr (w', Some (4 + (if bit (buf ! 0) 0 then 1 else 0)
                             + (if bit (buf ! 0) 2 then 2 else 0)
                             + (if bit (buf ! 0) 4 then 6 else 0)
                             + (if bit (buf ! 0) 5 then 4 else 0))))
     \<and> (bit (buf ! 0) 0 \<and> \<not> bit (buf ! 0) 2 \<and> bit (buf ! 0) 4 \<and> \<not> bit (buf ! 0) 5 \<longrightarrow>
          (\<exists>w'. handleCyclingPowerMeasurement src buf w = Inr (w', Some 11)))"
  by (simp add: cycling_power_nonzero [OF assms])

theorem cycling_power_offset_witness:
  "4 \<le> length [0x11, 0x00, 0x64, 0x00, 0x01, 0x02, 0x03, 0x04, 0x05, 0x06, 0x07 :: byte]
   \<and> \<not> ([0x11, 0x00, 0x64, 0x00, 0x01, 0x02, 0x03, 0x04, 0x05, 0x06, 0x07 :: byte] ! 2 = 0
        \<and> [0x11, 0x00, 0x64, 0x00, 0x01, 0x02, 0x03, 0x04, 0x05, 0x06, 0x07 :: byte] ! 3 = 0)
   \<and> bit (0x11 :: byte) 0 \<and> \<not> bit (0x11 :: byte) 2 \<and> bit (0x11 :: byte) 4 \<and> \<not> bit (0x11 :: byte) 5
   \<and> (\<exists>w'. handleCyclingPowerMeasurement
         \<lparr>sinks = [0], svc = ServiceUUIDCyclingPower, ch = CharacteristicUUIDCyclingPowerMeasurement\<rparr>
         [0x11, 0x00, 0x64, 0x00, 0x01, 0x02, 0x03, 0x04, 0x05, 0x06, 0x07]
         \<lparr>notifications = [], delivered = []\<rparr> = Inr (w', Some 11))"
  using cycling_power_offset [of "[0x11, 0x00, 0x64, 0x00, 0x01, 0x02, 0x03, 0x04, 0x05, 0x06, 0x07]"
      "\<lparr>sinks = [0], svc = ServiceUUIDCyclingPower, ch = CharacteristicUUIDCyclingPowerMeasurement\<rparr>"
      "\<lparr>notifications = [], delivered = []\<rparr>"]
  by simp

text \<open>With the same flags and a zero power field the function returns before the
  offset is computed.\<close>

theorem cycling_power_offset_counterexample:
  "handleCyclingPowerMeasurement
     \<lparr>sinks = [0], svc = ServiceUUIDCyclingPower, ch = CharacteristicUUIDCyclingPowerMeasurement\<rparr>
     [0x11, 0x00, 0x00, 0x00] \<lparr>notifications = [], delivered = []\<rparr>
   = Inr (\<lparr>notifications = [], delivered = []\<rparr>, None)
   \<and> handleCyclingPowerMeasurement
     \<lparr>sinks = [0], svc = ServiceUUIDCyclingPower, ch = CharacteristicUUIDCyclingPowerMeasurement\<rparr>
     [0x11, 0x00, 0x00, 0x00] \<lparr>notifications = [], delivered = []\<rparr>
   \<noteq> Inr (\<lparr>notifications = [], delivered = []\<rparr>, Some 11)"
  by (simp add: cycling_power_zero)

section \<open>Fan-out and subscription\<close>

text \<open>
  C7. \<open>emit\<close> sends the metric to each sink of the source, in the order of the sink
  list, and sends nothing else; the sink list of a source is the channels registered
  on it, in registration order. Registering a sink after an emission delivers
  nothing. With at least one sink registered, some sink receives the metric.
\<close>

theorem emit_fan_out:
  "delivered (emit src m w) = delivered w @ map (\<lambda>sink. (sink, m)) (sinks src)
   \<and> sinks (fst (addSinks cs (NewMetricSource s c, v))) = cs
   \<and> delivered (snd (AddSink late (src, emit src m w))) = delivered (emit src m w)
   \<and> (sinks src \<noteq> [] \<longrightarrow>
        (\<exists>sink \<in> set (sinks src). (sink, m) \<in> set (delivered (emit src m w))))"
proof -
  have d: "delivered (emit src m w) = delivered w @ map (\<lambda>sink. (sink, m)) (sinks src)"
    by (simp add: emit_def delivered_sendEach)
  have r: "sinks (fst (addSinks cs (NewMetricSource s c, v))) = cs"
    by (simp add: sinks_addSinks NewMetricSource_def)
  have l: "delivered (snd (AddSink late (src, emit src m w))) = delivered (emit src m w)"
    by (simp add: delivered_AddSink)
  have n: "\<exists>sink \<in> set (sinks src). (sink, m) \<in> set (delivered (emit src m w))"
    if "sinks src \<noteq> []"
  proof -
    from that obtain x xs where "sinks src = x # xs" by (cases "sinks src") auto
    then show ?thesis by (intro bexI [of _ x]) (simp_all add: d)
  qed
  from d r l n show ?thesis by blast
qed

theorem emit_fan_out_witness:
  "sinks \<lparr>sinks = [3, 5], svc = ServiceUUIDHeartRate,
          ch = CharacteristicUUIDHeartRateMeasurement\<rparr> \<noteq> []
   \<and> delivered (emit \<lparr>sinks = [3, 5], svc = ServiceUUIDHeartRate,
                       ch = CharacteristicUUIDHeartRateMeasurement\<rparr>
        \<lparr>kind = MetricHeartRate, mvalue = 72\<rparr> \<lparr>notifications = [], delivered = []\<rparr>)
     = [(3, \<lparr>kind = MetricHeartRate, mvalue = 72\<rparr>), (5, \<lparr>kind = MetricHeartRate, mvalue = 72\<rparr>)]
   \<and> (\<exists>sink \<in> set [3, 5]. (sink, \<lparr>kind = MetricHeartRate, mvalue = 72\<rparr>) \<in>
        set (delivered (emit \<lparr>sinks = [3, 5], svc = ServiceUUIDHeartRate,
                               ch = CharacteristicUUIDHeartRateMeasurement\<rparr>
          \<lparr>kind = MetricHeartRate, mvalue = 72\<rparr> \<lparr>notifications = [], delivered = []\<rparr>)))"
  using emit_fan_out [where src = "\<lparr>sinks = [3, 5], svc = ServiceUUIDHeartRate,
        ch = CharacteristicUUIDHeartRateMeasurement\<rparr>"
      and m = "\<lparr>kind = MetricHeartRate, mvalue = 72\<rparr>"
      and w = "\<lparr>notifications = [], delivered = []\<rparr>"
      and cs = "[3, 5]" and s = ServiceUUIDHeartRate
      and c = CharacteristicUUIDHeartRateMeasurement
      and v = "\<lparr>notifications = [], delivered = []\<rparr>" and late = 8]
  by auto

text \<open>
  C8. On a freshly constructed source the first \<open>AddSink\<close> calls
  \<open>EnableNotifications\<close> once, with the handler of the characteristic. After any
  sequence of one or more \<open>AddSink\<close> calls that is still the only call: an \<open>AddSink\<close>
  on a source that already has a sink makes none.
\<close>

theorem subscribe_once:
  "notifications (snd (AddSink c (NewMetricSource s chr, w))) =
     notifications w @ [(chr, notificationHandler (NewMetricSource s chr))]
   \<and> notifications (snd (addSinks (c # cs) (NewMetricSource s chr, w))) =
     notifications w @ [(chr, notificationHandler (NewMetricSource s chr))]
   \<and> (sinks (fst sw) \<noteq> [] \<longrightarrow>
        notifications (snd (AddSink c' sw)) = notifications (snd sw))"
proof -
  have first: "notifications (snd (AddSink c (NewMetricSource s chr, w))) =
     notifications w @ [(chr, notificationHandler (NewMetricSource s chr))]"
    using notifications_AddSink_first [of "(NewMetricSource s chr, w)" c]
    by (simp add: NewMetricSource_def)
  have "sinks (fst (AddSink c (NewMetricSource s chr, w))) \<noteq> []"
    by (simp add: sinks_AddSink)
  then have "notifications (snd (addSinks cs (AddSink c (NewMetricSource s chr, w)))) =
     notifications (snd (AddSink c (NewMetricSource s chr, w)))"
    by (rule notifications_addSinks_later)
  with first show ?thesis
    by (simp add: notifications_AddSink_later)
qed

theorem subscribe_once_witness:
  "notifications (snd (addSinks [7, 7, 9]
      (NewMetricSource ServiceUUIDHeartRate CharacteristicUUIDHeartRateMeasurement,
       \<lparr>notifications = [], delivered = []\<rparr>))) =
     [(CharacteristicUUIDHeartRateMeasurement, Some HandleHeartRateMeasurement)]
   \<and> sinks \<lparr>sinks = [7], svc = ServiceUUIDHeartRate,
            ch = CharacteristicUUIDHeartRateMeasurement\<rparr> \<noteq> []
   \<and> notifications (snd (AddSink 9
        (\<lparr>sinks = [7], svc = ServiceUUIDHeartRate, ch = CharacteristicUUIDHeartRateMeasurement\<rparr>,
         \<lparr>notifications = [(CharacteristicUUIDHeartRateMeasurement, Some HandleHeartRateMeasurement)],
          delivered = []\<rparr>)))
     = [(CharacteristicUUIDHeartRateMeasurement, Some HandleHeartRateMeasurement)]"
  using subscribe_once [of 7 ServiceUUIDHeartRate CharacteristicUUIDHeartRateMeasurement
      "\<lparr>notifications = [], delivered = []\<rparr>" "[7, 9]"
      "(\<lparr>sinks = [7], svc = ServiceUUIDHeartRate, ch = CharacteristicUUIDHeartRateMeasurement\<rparr>,
        \<lparr>notifications = [(CharacteristicUUIDHeartRateMeasurement, Some HandleHeartRateMeasurement)],
         delivered = []\<rparr>)" 9]
  by (simp add: NewMetricSource_def notificationHandler_def)

section \<open>Scan de-duplication\<close>

text \<open>
  C9. Whatever the sequence of scan results, no two printed reports carry the same
  address. The reports of a sequence are kept when it goes on, and none of the
  reports added later carries an address that was reported before.
\<close>

theorem scan_reports_once:
  "distinct (map reportAddress (printed (scanDevices results)))
   \<and> (\<exists>new. printed (scanDevices (earlier @ later)) = printed (scanDevices earlier) @ new
        \<and> (\<forall>line \<in> set new.
              reportAddress line \<notin> reportAddress ` set (printed (scanDevices earlier))))"
proof -
  have inv: "distinct (map reportAddress (printed (scanDevices rs)))" for rs
    unfolding scanDevices_def by (rule scan_keeps [THEN conjunct2]) simp_all
  obtain new
    where new: "printed (scanDevices (earlier @ later)) = printed (scanDevices earlier) @ new"
    using printed_scanFrom_extends [of later "scanDevices earlier"]
    by (auto simp: scanDevices_def scanFrom_append)
  from inv [of "earlier @ later"] new
  have "\<forall>line \<in> set new.
      reportAddress line \<notin> reportAddress ` set (printed (scanDevices earlier))"
    by auto
  with inv [of results] new show ?thesis by blast
qed

theorem scan_reports_once_witness:
  "distinct (map reportAddress (printed (scanDevices
      [\<lparr>Address = ''AA:01'', LocalName = ''strap'', ServiceUUIDs = [ServiceUUIDHeartRate],
        RSSI = - 60\<rparr>,
       \<lparr>Address = ''AA:01'', LocalName = ''strap'', ServiceUUIDs = [ServiceUUIDHeartRate],
        RSSI = - 58\<rparr>])))
   \<and> printed (scanDevices
      [\<lparr>Address = ''AA:01'', LocalName = ''strap'', ServiceUUIDs = [ServiceUUIDHeartRate],
        RSSI = - 60\<rparr>,
       \<lparr>Address = ''AA:01'', LocalName = ''strap'', ServiceUUIDs = [ServiceUUIDHeartRate],
        RSSI = - 58\<rparr>])
     = [\<lparr>reportAddress = ''AA:01'', reportName = ''strap'', reportServices = ''Heart Rate'',
         reportRSSI = - 60\<rparr>]"
proof -
  have "printed (scanDevices
      [\<lparr>Address = ''AA:01'', LocalName = ''strap'', ServiceUUIDs = [ServiceUUIDHeartRate],
        RSSI = - 60\<rparr>,
       \<lparr>Address = ''AA:01'', LocalName = ''strap'', ServiceUUIDs = [ServiceUUIDHeartRate],
        RSSI = - 58\<rparr>])
     = [\<lparr>reportAddress = ''AA:01'', reportName = ''strap'', reportServices = ''Heart Rate'',
         reportRSSI = - 60\<rparr>]"
    by (simp add: scanDevices_def onScanResult_def KnownServiceUUIDs_def KnownServiceNames_def
        HasServiceUUID_def serviceName_def Let_def)
  with scan_reports_once [of
      "[\<lparr>Address = ''AA:01'', LocalName = ''strap'', ServiceUUIDs = [ServiceUUIDHeartRate],
         RSSI = - 60\<rparr>,
        \<lparr>Address = ''AA:01'', LocalName = ''strap'', ServiceUUIDs = [ServiceUUIDHeartRate],
         RSSI = - 58\<rparr>]" "[]" "[]"]
  show ?thesis by blast
qed

text \<open>
  C10. Every scan result puts its address into the set of seen addresses, whether or
  not it advertises a known service. So an address whose first scan result matches no
  known service is never reported, whatever the later results from it advertise.
\<close>

theorem first_result_marks_address:
  "dom (addrsChecked (onScanResult result st)) = insert (Address result) (dom (addrsChecked st))
   \<and> (Address result \<notin> Address ` set before \<longrightarrow>
       (\<forall>s \<in> set KnownServiceUUIDs. \<not> HasServiceUUID result s) \<longrightarrow>
       Address result \<notin> reportAddress ` set (printed (scanDevices (before @ result # after))))"
proof -
  have "Address result \<notin> reportAddress ` set (printed (scanDevices (before @ result # after)))"
    if fresh: "Address result \<notin> Address ` set before"
      and unmatched: "\<forall>s \<in> set KnownServiceUUIDs. \<not> HasServiceUUID result s"
  proof -
    let ?st = "scanDevices before"
    have "reportAddress ` set (printed ?st) \<subseteq> dom (addrsChecked ?st)"
      unfolding scanDevices_def by (rule scan_keeps [THEN conjunct1]) simp_all
    moreover have "dom (addrsChecked ?st) = Address ` set before"
      by (simp add: scanDevices_def dom_scanFrom)
    ultimately have quiet: "Address result \<notin> reportAddress ` set (printed ?st)"
      using fresh by blast
    from unmatched have "matchServices result KnownServiceUUIDs [] = []"
      by (rule matchServices_none)
    then have same: "printed (onScanResult result ?st) = printed ?st"
      by (rule printed_onScanResult_unmatched)
    have "Address result \<in> dom (addrsChecked (onScanResult result ?st))"
      by (simp add: dom_onScanResult)
    then have "(Address result \<in>
          reportAddress ` set (printed (scanFrom after (onScanResult result ?st))))
        = (Address result \<in> reportAddress ` set (printed (onScanResult result ?st)))"
      by (rule seen_address_silent)
    with same quiet show ?thesis
      by (simp add: scanDevices_def scanFrom_append)
  qed
  then show ?thesis by (simp add: dom_onScanResult)
qed

theorem first_result_marks_address_witness:
  "Address \<lparr>Address = ''AA:01'', LocalName = ''kickr'', ServiceUUIDs = [OtherUUID 1],
            RSSI = - 60\<rparr> \<notin> Address ` set []
   \<and> \<not> HasServiceUUID \<lparr>Address = ''AA:01'', LocalName = ''kickr'',
         ServiceUUIDs = [OtherUUID 1], RSSI = - 60\<rparr> ServiceUUIDCyclingSpeedAndCadence
   \<and> \<not> HasServiceUUID \<lparr>Address = ''AA:01'', LocalName = ''kickr'',
         ServiceUUIDs = [OtherUUID 1], RSSI = - 60\<rparr> ServiceUUIDCyclingPower
   \<and> \<not> HasServiceUUID \<lparr>Address = ''AA:01'', LocalName = ''kickr'',
         ServiceUUIDs = [OtherUUID 1], RSSI = - 60\<rparr> ServiceUUIDHeartRate
   \<and> ''AA:01'' \<notin> reportAddress ` set (printed (scanDevices
        [\<lparr>Address = ''AA:01'', LocalName = ''kickr'', ServiceUUIDs = [OtherUUID 1],
          RSSI = - 60\<rparr>,
         \<lparr>Address = ''AA:01'', LocalName = ''kickr'', ServiceUUIDs = [ServiceUUIDCyclingPower],
          RSSI = - 58\<rparr>]))"
  using first_result_marks_address [of
      "\<lparr>Address = ''AA:01'', LocalName = ''kickr'', ServiceUUIDs = [OtherUUID 1], RSSI = - 60\<rparr>"
      "\<lparr>addrsChecked = Map.empty, printed = []\<rparr>" "[]"
      "[\<lparr>Address = ''AA:01'', LocalName = ''kickr'', ServiceUUIDs = [ServiceUUIDCyclingPower],
         RSSI = - 58\<rparr>]"]
  by (simp add: KnownServiceUUIDs_def HasServiceUUID_def)

end
